theory Spec2Isabelle
  imports Complex_Main
begin

section \<open>The GRD reader: a shallow embedding of \<open>grd_reader/__init__.py\<close>\<close>

text \<open>
  The parser \<open>read_grd\<close> reads the whole file, cuts it into lines with
  \<open>splitlines\<close> and runs one pass over the lines. The model takes the list of
  lines as its input. A line is a \<open>string\<close>; a character stands for a code point
  below 256. Every exception the Python code can raise is a value of \<open>error\<close>,
  and a function that can raise returns \<open>error + 'a\<close>.
\<close>

subsection \<open>Python's string operations\<close>

datatype error = IndexError | ValueError

text \<open>\<open>str.isspace\<close> on one character: the white space of \<open>str.split()\<close> and
  \<open>str.strip()\<close>.\<close>

definition isspace :: "char \<Rightarrow> bool" where
  "isspace c = (of_char c \<in> {9, 10, 11, 12, 13, 28, 29, 30, 31, 32, 133, 160 :: nat})"

text \<open>\<open>s.startswith(p)\<close>\<close>

definition startswith :: "string \<Rightarrow> string \<Rightarrow> bool" where
  "startswith s p = (take (length p) s = p)"

text \<open>\<open>s.strip()\<close>\<close>

definition strip :: "string \<Rightarrow> string" where
  "strip s = rev (dropWhile isspace (rev (dropWhile isspace s)))"

text \<open>\<open>s.replace(a, b)\<close> for one-character \<open>a\<close> and \<open>b\<close>\<close>

definition replace :: "char \<Rightarrow> char \<Rightarrow> string \<Rightarrow> string" where
  "replace a b s = map (\<lambda>c. if c = a then b else c) s"

text \<open>\<open>s.split()\<close>: the maximal runs of characters that are not white space.\<close>

function split_ws :: "string \<Rightarrow> string list" where
  "split_ws s =
     (let t = dropWhile isspace s
      in if t = [] then []
         else takeWhile (\<lambda>c. \<not> isspace c) t # split_ws (dropWhile (\<lambda>c. \<not> isspace c) t))"
  by pat_completeness auto
termination
proof (relation "measure length")
  fix s t :: string
  assume t: "t = dropWhile isspace s" and ne: "t \<noteq> []"
  obtain c cs where cs: "t = c # cs"
    using ne by (cases t) auto
  have "\<not> isspace (hd t)"
    using t ne hd_dropWhile by metis
  then have "dropWhile (\<lambda>c. \<not> isspace c) t = dropWhile (\<lambda>c. \<not> isspace c) cs"
    using cs by simp
  moreover have "length (dropWhile (\<lambda>c. \<not> isspace c) cs) \<le> length cs"
    by (rule length_dropWhile_le)
  moreover have "length t \<le> length s"
    unfolding t by (rule length_dropWhile_le)
  ultimately have "length (dropWhile (\<lambda>c. \<not> isspace c) t) < length s"
    using cs by simp
  then show "(dropWhile (\<lambda>c. \<not> isspace c) t, s) \<in> measure length"
    by simp
qed simp

declare split_ws.simps [simp del]

text \<open>\<open>s.split(maxsplit=n)\<close>: at most \<open>n\<close> cuts; what is left after the last cut
  loses its leading white space only.\<close>

fun split_ws_max :: "nat \<Rightarrow> string \<Rightarrow> string list" where
  "split_ws_max 0 s = (let t = dropWhile isspace s in if t = [] then [] else [t])"
| "split_ws_max (Suc n) s =
     (let t = dropWhile isspace s
      in if t = [] then []
         else takeWhile (\<lambda>c. \<not> isspace c) t # split_ws_max n (dropWhile (\<lambda>c. \<not> isspace c) t))"

text \<open>\<open>s.split(sep)\<close> for a one-character separator: every occurrence cuts, and empty
  pieces are kept.\<close>

fun split_on :: "char \<Rightarrow> string \<Rightarrow> string list" where
  "split_on sep [] = [[]]"
| "split_on sep (c # cs) =
     (if c = sep then [] # split_on sep cs
      else (case split_on sep cs of
              [] \<Rightarrow> [[c]]
            | w # ws \<Rightarrow> (c # w) # ws))"

text \<open>\<open>s.split(sep, maxsplit=1)\<close>: one cut at the first separator, if there is one.\<close>

definition split_on1 :: "char \<Rightarrow> string \<Rightarrow> string list" where
  "split_on1 sep s =
     (if sep \<in> set s
      then [takeWhile (\<lambda>c. c \<noteq> sep) s, tl (dropWhile (\<lambda>c. c \<noteq> sep) s)]
      else [s])"

text \<open>\<open>xs[i]\<close> on a list: positions \<open>0 .. len - 1\<close> read from the front, positions
  \<open>-len .. -1\<close> read from the back, and every other position raises \<open>IndexError\<close>.\<close>

definition getitem :: "'a list \<Rightarrow> int \<Rightarrow> error + 'a" where
  "getitem xs i =
     (if 0 \<le> i \<and> i < int (length xs) then Inr (xs ! nat i)
      else if i < 0 \<and> - int (length xs) \<le> i then Inr (xs ! nat (int (length xs) + i))
      else Inl IndexError)"

text \<open>\<open>xs.index(x)\<close>: the first position of \<open>x\<close>, or \<open>ValueError\<close>.\<close>

fun index :: "'a list \<Rightarrow> 'a \<Rightarrow> error + nat" where
  "index [] x = Inl ValueError"
| "index (y # ys) x =
     (if y = x then Inr 0
      else (case index ys x of Inl e \<Rightarrow> Inl e | Inr i \<Rightarrow> Inr (Suc i)))"

subsection \<open>Integers: \<open>int(s)\<close> and the format \<open>{n:d}\<close>\<close>

definition isdigit :: "char \<Rightarrow> bool" where
  "isdigit c = (48 \<le> (of_char c :: nat) \<and> (of_char c :: nat) \<le> 57)"

definition digit_val :: "char \<Rightarrow> nat" where
  "digit_val c = of_char c - 48"

text \<open>The digits of a decimal literal after its first digit: a single underscore may stand
  between two digits.\<close>

fun more_digits :: "nat \<Rightarrow> string \<Rightarrow> nat option" where
  "more_digits acc [] = Some acc"
| "more_digits acc [c] = (if isdigit c then Some (10 * acc + digit_val c) else None)"
| "more_digits acc (c # d # ds) =
     (if c = CHR ''_''
      then (if isdigit d then more_digits (10 * acc + digit_val d) ds else None)
      else if isdigit c then more_digits (10 * acc + digit_val c) (d # ds)
      else None)"

definition digits :: "string \<Rightarrow> nat option" where
  "digits s =
     (case s of [] \<Rightarrow> None
      | c # cs \<Rightarrow> if isdigit c then more_digits (digit_val c) cs else None)"

text \<open>The white space that \<open>int\<close> drops around a literal: the space and the characters
  \<open>\t \n \v \f \r\<close>, and the white space above the ASCII range (\<open>\x85\<close> and
  \<open>\xa0\<close>), which \<open>int\<close> first turns into spaces. The separators \<open>\x1c\<close> to
  \<open>\x1f\<close>, which \<open>str.strip\<close> removes, are not dropped.\<close>

definition ascii_space :: "char \<Rightarrow> bool" where
  "ascii_space c = (of_char c \<in> {9, 10, 11, 12, 13, 32 :: nat})"

definition int_strip :: "string \<Rightarrow> string" where
  "int_strip s =
     (let t = map (\<lambda>c. if 127 \<le> (of_char c :: nat) \<and> isspace c then CHR '' '' else c) s
      in rev (dropWhile ascii_space (rev (dropWhile ascii_space t))))"

text \<open>\<open>int(s)\<close>: white space around the literal is dropped, one sign may lead, and
  anything else raises \<open>ValueError\<close>. (The interpreter's configurable limit on the
  number of digits is not modelled.)\<close>

definition py_int :: "string \<Rightarrow> error + int" where
  "py_int s =
     (let t = int_strip s;
          r = (case t of [] \<Rightarrow> None
               | c # cs \<Rightarrow>
                   if c = CHR ''-'' then map_option (\<lambda>n. - int n) (digits cs)
                   else if c = CHR ''+'' then map_option int (digits cs)
                   else map_option int (digits t))
      in case r of None \<Rightarrow> Inl ValueError | Some i \<Rightarrow> Inr i)"

text \<open>\<open>f"{n:d}"\<close>: the decimal digits of \<open>n\<close>, after a minus sign when \<open>n\<close> is
  negative.\<close>

fun nat_digits :: "nat \<Rightarrow> string" where
  "nat_digits n =
     (if n < 10 then [char_of (48 + n)]
      else nat_digits (n div 10) @ [char_of (48 + n mod 10)])"

declare nat_digits.simps [simp del]

definition format_d :: "int \<Rightarrow> string" where
  "format_d n = (if n < 0 then CHR ''-'' # nat_digits (nat (- n)) else nat_digits (nat n))"

subsection \<open>Floating-point numbers and numpy arrays\<close>

text \<open>
  The type \<open>'f\<close> stands for Python's \<open>float\<close>. The parser uses three things of it:
  the constant \<open>0.0\<close>, the subtraction, and \<open>float(s)\<close> on a string. The first two are
  \<open>0\<close> and \<open>-\<close> of the type, of which no law is assumed; the third is the parameter
  \<open>pf\<close> of the parser, with \<open>None\<close> where \<open>float\<close> raises \<open>ValueError\<close>.
\<close>

text \<open>\<open>[float(item.replace(",", ".")) for item in line.split()]\<close>\<close>

definition parse_row :: "(string \<Rightarrow> 'f option) \<Rightarrow> string \<Rightarrow> error + 'f list" where
  "parse_row pf line =
     (case those (map (\<lambda>item. pf (replace (CHR '','') (CHR ''.'') item)) (split_ws line)) of
        None \<Rightarrow> Inl ValueError
      | Some row \<Rightarrow> Inr row)"

text \<open>
  A numpy array of the parser is one-dimensional (\<open>np.empty(0)\<close>, and the result of
  \<open>np.fromiter\<close> on the first row) or two-dimensional (the result of \<open>np.vstack\<close>),
  given by its rows.
\<close>

datatype 'f ndarray = Arr1 "'f list" | Arr2 "'f list list"

text \<open>\<open>a.shape[0]\<close>\<close>

definition shape0 :: "'f ndarray \<Rightarrow> nat" where
  "shape0 a = (case a of Arr1 xs \<Rightarrow> length xs | Arr2 rows \<Rightarrow> length rows)"

text \<open>\<open>a.shape[-1]\<close>: the number of entries of a row.\<close>

definition ncols :: "'f ndarray \<Rightarrow> nat" where
  "ncols a = (case a of Arr1 xs \<Rightarrow> length xs
              | Arr2 rows \<Rightarrow> (case rows of [] \<Rightarrow> 0 | r # _ \<Rightarrow> length r))"

text \<open>\<open>np.atleast_2d(a)\<close>, as rows: a one-dimensional array becomes a single row.\<close>

definition atleast_2d :: "'f ndarray \<Rightarrow> 'f list list" where
  "atleast_2d a = (case a of Arr1 xs \<Rightarrow> [xs] | Arr2 rows \<Rightarrow> rows)"

text \<open>\<open>np.vstack((a, row))\<close> for an array and a list: both are made two-dimensional and
  the row is put beneath the array; rows of different lengths raise \<open>ValueError\<close>.
  (The parser calls it on arrays that hold a row.)\<close>

definition vstack :: "'f ndarray \<Rightarrow> 'f list \<Rightarrow> error + 'f ndarray" where
  "vstack a row =
     (case atleast_2d a of
        [] \<Rightarrow> Inr (Arr2 [row])
      | r # rs \<Rightarrow> if length r = length row then Inr (Arr2 (r # rs @ [row])) else Inl ValueError)"

text \<open>The result of \<open>a[..., col]\<close>: a single number for a one-dimensional array, a
  column for a two-dimensional one.\<close>

datatype 'f item = Scalar 'f | Column "'f list"

definition ellipsis_col :: "'f ndarray \<Rightarrow> int \<Rightarrow> error + 'f item" where
  "ellipsis_col a col =
     (let n = int (ncols a); j = (if col < 0 then n + col else col)
      in if 0 \<le> j \<and> j < n
         then Inr (case a of Arr1 xs \<Rightarrow> Scalar (xs ! nat j)
                   | Arr2 rows \<Rightarrow> Column (map (\<lambda>r. r ! nat j) rows))
         else Inl IndexError)"

subsection \<open>The data model: \<open>CurveData\<close> and \<open>GraphData\<close>\<close>

record 'f CurveData =
  curve_number :: int
  start_date :: string
  key :: string
  duration :: 'f
  points :: int
  data :: "'f ndarray"

text \<open>\<open>CurveData()\<close>\<close>

definition CurveData_init :: "'f::zero CurveData" where
  "CurveData_init =
     \<lparr>curve_number = 0, start_date = [], key = [], duration = 0, points = 0, data = Arr1 []\<rparr>"

text \<open>\<open>CurveData.__getitem__\<close>\<close>

definition curve_getitem :: "'f CurveData \<Rightarrow> int \<Rightarrow> error + 'f item" where
  "curve_getitem c col = ellipsis_col (data c) col"

record 'f GraphData =
  names :: "string list"
  units :: "string list"
  curves :: "'f CurveData list"
  sample_name :: string
  date :: string
  specific_info :: string
  user_info :: string
  comment :: "string list"

text \<open>\<open>GraphData()\<close>\<close>

definition GraphData_init :: "'f GraphData" where
  "GraphData_init =
     \<lparr>names = [], units = [], curves = [], sample_name = [], date = [],
      specific_info = [], user_info = [], comment = []\<rparr>"

text \<open>The property \<open>GraphData.curve\<close>: \<open>self.curves[-1]\<close>.\<close>

definition curve :: "'f GraphData \<Rightarrow> error + 'f CurveData" where
  "curve g = getitem (curves g) (- 1)"

text \<open>An assignment \<open>data.curve.field = v\<close>: the last curve is changed in place, and
  \<open>IndexError\<close> is raised when there is no curve.\<close>

definition set_curve :: "('f CurveData \<Rightarrow> 'f CurveData) \<Rightarrow> 'f GraphData \<Rightarrow> error + 'f GraphData" where
  "set_curve upd g =
     (case curve g of
        Inl e \<Rightarrow> Inl e
      | Inr c \<Rightarrow> Inr (g\<lparr>curves := butlast (curves g) @ [upd c]\<rparr>))"

text \<open>The loop of \<open>GraphData.__getitem__\<close> over \<open>enumerate(self.curves)\<close>, started at
  position \<open>i\<close>: the position of the first curve with the number, or the initial
  \<open>index = -1\<close>.\<close>

fun find_curve :: "int \<Rightarrow> nat \<Rightarrow> 'f CurveData list \<Rightarrow> int" where
  "find_curve n i [] = - 1"
| "find_curve n i (c # cs) = (if curve_number c = n then int i else find_curve n (Suc i) cs)"

text \<open>\<open>GraphData.__getitem__\<close>\<close>

definition graph_getitem :: "'f GraphData \<Rightarrow> int \<times> string \<Rightarrow> error + 'f item" where
  "graph_getitem g item =
     (case item of (number, channel) \<Rightarrow>
        (case index (names g) channel of
           Inl e \<Rightarrow> Inl e
         | Inr col \<Rightarrow>
             (let idx = find_curve number 0 (curves g)
              in if idx = - 1 then Inl IndexError
                 else (case getitem (curves g) idx of
                         Inl e \<Rightarrow> Inl e
                       | Inr c \<Rightarrow> curve_getitem c (int col)))))"

text \<open>\<open>GraphData.unit\<close>\<close>

definition unit :: "'f GraphData \<Rightarrow> string \<Rightarrow> error + string" where
  "unit g channel =
     (case index (names g) channel of
        Inl e \<Rightarrow> Inl e
      | Inr col \<Rightarrow> getitem (units g) (int col))"

subsection \<open>The parser \<open>read_grd\<close>\<close>

text \<open>
  The local variables of \<open>read_grd\<close> that live across the lines: the \<open>GraphData\<close>
  under construction (the variable \<open>data\<close> of the source) and the four mode flags.
\<close>

record 'f reader =
  gdata :: "'f GraphData"
  first_lines :: bool
  reading_comment :: bool
  reading_axes_description :: int
  reading_data :: bool

definition reader_init :: "'f reader" where
  "reader_init =
     \<lparr>gdata = GraphData_init, first_lines = True, reading_comment = False,
      reading_axes_description = - 1, reading_data = False\<rparr>"

text \<open>The first statement of the loop body: a line that starts with \<open>#START\<close> ends the
  preamble; before that, the four labelled lines set the metadata to what follows the
  first colon (\<open>line.split(":", maxsplit=1)[-1]\<close>). This statement never ends the
  iteration.\<close>

definition preamble :: "string \<Rightarrow> 'f reader \<Rightarrow> 'f reader" where
  "preamble line st =
     (if startswith line ''#START'' then st\<lparr>first_lines := False\<rparr>
      else if first_lines st then
        (if startswith line '' Sample name :''
         then st\<lparr>gdata := (gdata st)\<lparr>sample_name := last (split_on1 (CHR '':'') line)\<rparr>\<rparr>
         else if startswith line '' Date        :''
         then st\<lparr>gdata := (gdata st)\<lparr>date := last (split_on1 (CHR '':'') line)\<rparr>\<rparr>
         else if startswith line '' Specific inf:''
         then st\<lparr>gdata := (gdata st)\<lparr>specific_info := last (split_on1 (CHR '':'') line)\<rparr>\<rparr>
         else if startswith line '' User info   :''
         then st\<lparr>gdata := (gdata st)\<lparr>user_info := last (split_on1 (CHR '':'') line)\<rparr>\<rparr>
         else st)
      else st)"

text \<open>\<open>line.split(maxsplit=10)[-1].strip().replace(" ", "_")\<close>\<close>

definition axis_name :: "string \<Rightarrow> error + string" where
  "axis_name line =
     (case getitem (split_ws_max 10 line) (- 1) of
        Inl e \<Rightarrow> Inl e
      | Inr w \<Rightarrow> Inr (replace (CHR '' '') (CHR ''_'') (strip w)))"

text \<open>\<open>line.split(maxsplit=10)[-2].strip() if len(line.split()) > 10 else ""\<close>\<close>

definition axis_unit :: "string \<Rightarrow> error + string" where
  "axis_unit line =
     (if length (split_ws line) > 10
      then (case getitem (split_ws_max 10 line) (- 2) of
              Inl e \<Rightarrow> Inl e
            | Inr w \<Rightarrow> Inr (strip w))
      else Inr [])"

text \<open>The two floats of a \<open>#START Time:\<close> line and their difference:
  \<open>times = line.split(":")[1].split()\<close>, then
  \<open>float(times[1].replace(",", ".")) - float(times[0].replace(",", "."))\<close>, the left
  operand first.\<close>

definition float_comma :: "(string \<Rightarrow> 'f option) \<Rightarrow> string \<Rightarrow> error + 'f" where
  "float_comma pf w =
     (case pf (replace (CHR '','') (CHR ''.'') w) of None \<Rightarrow> Inl ValueError | Some x \<Rightarrow> Inr x)"

definition time_difference :: "(string \<Rightarrow> 'f::minus option) \<Rightarrow> string \<Rightarrow> error + 'f" where
  "time_difference pf line =
     (case getitem (split_on (CHR '':'') line) 1 of
        Inl e \<Rightarrow> Inl e
      | Inr seg \<Rightarrow>
          (let times = split_ws seg
           in case getitem times 1 of
                Inl e \<Rightarrow> Inl e
              | Inr t1 \<Rightarrow>
                  (case float_comma pf t1 of
                     Inl e \<Rightarrow> Inl e
                   | Inr b \<Rightarrow>
                       (case getitem times 0 of
                          Inl e \<Rightarrow> Inl e
                        | Inr t0 \<Rightarrow>
                            (case float_comma pf t0 of
                               Inl e \<Rightarrow> Inl e
                             | Inr a \<Rightarrow> Inr (b - a))))))"

text \<open>A line of curve data (the last branch of the loop body, under \<open>reading_data\<close>): the
  end tag of the current curve leaves the mode; any other line is a row of numbers, which
  becomes the array when the array is empty and is stacked beneath it otherwise.\<close>

definition data_line :: "(string \<Rightarrow> 'f option) \<Rightarrow> string \<Rightarrow> 'f reader \<Rightarrow> error + 'f reader" where
  "data_line pf line st =
     (case curve (gdata st) of
        Inl e \<Rightarrow> Inl e
      | Inr c \<Rightarrow>
          if curve_number c \<noteq> 0
             \<and> startswith line (''#END Curve '' @ format_d (curve_number c) @ '' -'')
          then Inr (st\<lparr>reading_data := False\<rparr>)
          else if shape0 (data c) \<noteq> 0
          then (case parse_row pf line of
                  Inl e \<Rightarrow> Inl e
                | Inr row \<Rightarrow>
                    (case vstack (data c) row of
                       Inl e \<Rightarrow> Inl e
                     | Inr a \<Rightarrow>
                         (case set_curve (\<lambda>c. c\<lparr>data := a\<rparr>) (gdata st) of
                            Inl e \<Rightarrow> Inl e
                          | Inr g \<Rightarrow> Inr (st\<lparr>gdata := g\<rparr>))))
          else (case parse_row pf line of
                  Inl e \<Rightarrow> Inl e
                | Inr row \<Rightarrow>
                    (case set_curve (\<lambda>c. c\<lparr>data := Arr1 row\<rparr>) (gdata st) of
                       Inl e \<Rightarrow> Inl e
                     | Inr g \<Rightarrow> Inr (st\<lparr>gdata := g\<rparr>))))"

text \<open>
  The rest of the loop body, from \<open>if line.startswith("#START comment")\<close> on, is a chain
  of tests, each ending its branch with \<open>continue\<close>. The model follows the chain in the
  order of the source and cuts it into four stages (comment block, axis description, curve
  tags, curve data); a stage whose tests all fail hands the line to the next one.
\<close>

text \<open>A line inside the comment block (\<open>elif reading_comment\<close>).\<close>

definition comment_line :: "string \<Rightarrow> 'f reader \<Rightarrow> 'f reader" where
  "comment_line line st =
     (if startswith line ''#END comment''
      then st\<lparr>reading_comment := False,
              gdata := (if comment (gdata st) = ['' '']
                        then (gdata st)\<lparr>comment := []\<rparr> else gdata st)\<rparr>
      else st\<lparr>gdata := (gdata st)\<lparr>comment := comment (gdata st) @ [strip line]\<rparr>\<rparr>)"

text \<open>A line inside the axis description (\<open>if reading_axes_description != -1\<close>).\<close>

definition axis_line :: "string \<Rightarrow> 'f reader \<Rightarrow> error + 'f reader" where
  "axis_line line st =
     (if startswith line ''#END axis description''
      then Inr (st\<lparr>reading_axes_description := - 1\<rparr>)
      else if reading_axes_description st > 0
      then (case axis_name line of
              Inl e \<Rightarrow> Inl e
            | Inr name \<Rightarrow>
                (case axis_unit line of
                   Inl e \<Rightarrow> Inl e
                 | Inr u \<Rightarrow>
                     Inr (st\<lparr>gdata := (gdata st)\<lparr>names := names (gdata st) @ [name],
                                                 units := units (gdata st) @ [u]\<rparr>,
                              reading_axes_description := reading_axes_description st + 1\<rparr>)))
      else Inr (st\<lparr>reading_axes_description := reading_axes_description st + 1\<rparr>))"

text \<open>\<open>#START Curve description\<close>: a new curve, numbered by \<open>int(line.split()[3])\<close>.\<close>

definition curve_description :: "string \<Rightarrow> 'f::zero reader \<Rightarrow> error + 'f reader" where
  "curve_description line st =
     (case getitem (split_ws line) 3 of
        Inl e \<Rightarrow> Inl e
      | Inr w \<Rightarrow>
          (case py_int w of
             Inl e \<Rightarrow> Inl e
           | Inr n \<Rightarrow>
               Inr (st\<lparr>gdata := (gdata st)\<lparr>curves := curves (gdata st)
                                                    @ [CurveData_init\<lparr>curve_number := n\<rparr>]\<rparr>,
                        reading_data := False\<rparr>)))"

text \<open>\<open>#START Date:\<close> and \<open>#START Curve Legend\<close>: what follows the first colon
  (\<open>line.split(":", maxsplit=1)[1]\<close>) goes to a field of the latest curve.\<close>

definition curve_date :: "string \<Rightarrow> 'f reader \<Rightarrow> error + 'f reader" where
  "curve_date line st =
     (case getitem (split_on1 (CHR '':'') line) 1 of
        Inl e \<Rightarrow> Inl e
      | Inr v \<Rightarrow>
          (case set_curve (\<lambda>c. c\<lparr>start_date := v\<rparr>) (gdata st) of
             Inl e \<Rightarrow> Inl e
           | Inr g \<Rightarrow> Inr (st\<lparr>gdata := g\<rparr>)))"

definition curve_legend :: "string \<Rightarrow> 'f reader \<Rightarrow> error + 'f reader" where
  "curve_legend line st =
     (case getitem (split_on1 (CHR '':'') line) 1 of
        Inl e \<Rightarrow> Inl e
      | Inr v \<Rightarrow>
          (case set_curve (\<lambda>c. c\<lparr>key := v\<rparr>) (gdata st) of
             Inl e \<Rightarrow> Inl e
           | Inr g \<Rightarrow> Inr (st\<lparr>gdata := g\<rparr>)))"

text \<open>\<open>#START Time:\<close>: the difference is computed first, then the latest curve is
  looked up.\<close>

definition curve_time :: "(string \<Rightarrow> 'f::minus option) \<Rightarrow> string \<Rightarrow> 'f reader \<Rightarrow> error + 'f reader" where
  "curve_time pf line st =
     (case time_difference pf line of
        Inl e \<Rightarrow> Inl e
      | Inr d \<Rightarrow>
          (case set_curve (\<lambda>c. c\<lparr>duration := d\<rparr>) (gdata st) of
             Inl e \<Rightarrow> Inl e
           | Inr g \<Rightarrow> Inr (st\<lparr>gdata := g\<rparr>)))"

text \<open>\<open>#START Curve N\<close> for the number \<open>N\<close> of the latest curve:
  \<open>points = int(line.split("=")[1])\<close>.\<close>

definition curve_points :: "string \<Rightarrow> 'f reader \<Rightarrow> error + 'f reader" where
  "curve_points line st =
     (case getitem (split_on (CHR ''='') line) 1 of
        Inl e \<Rightarrow> Inl e
      | Inr w \<Rightarrow>
          (case py_int w of
             Inl e \<Rightarrow> Inl e
           | Inr n \<Rightarrow>
               (case set_curve (\<lambda>c. c\<lparr>points := n\<rparr>) (gdata st) of
                  Inl e \<Rightarrow> Inl e
                | Inr g \<Rightarrow> Inr (st\<lparr>gdata := g\<rparr>))))"

text \<open>The test \<open>data and data.curve.curve_number and line.startswith(f"#START Curve
  {data.curve.curve_number:d}")\<close>; a \<open>GraphData\<close> is true when it has a curve.\<close>

definition is_points_tag :: "string \<Rightarrow> 'f reader \<Rightarrow> bool" where
  "is_points_tag line st =
     (curves (gdata st) \<noteq> [] \<and> curve_number (last (curves (gdata st))) \<noteq> 0
      \<and> startswith line (''#START Curve '' @ format_d (curve_number (last (curves (gdata st))))))"

text \<open>Fourth stage: the start of the curve data, and the lines under \<open>reading_data\<close>. A
  line that no test takes is ignored.\<close>

definition data_stage :: "(string \<Rightarrow> 'f option) \<Rightarrow> string \<Rightarrow> 'f reader \<Rightarrow> error + 'f reader" where
  "data_stage pf line st =
     (if startswith line ''#START Curve Data'' then Inr (st\<lparr>reading_data := True\<rparr>)
      else if reading_data st then data_line pf line st
      else Inr st)"

text \<open>Third stage: the tags of a curve.\<close>

definition curve_stage :: "(string \<Rightarrow> 'f::{zero,minus} option) \<Rightarrow> string \<Rightarrow> 'f reader \<Rightarrow> error + 'f reader" where
  "curve_stage pf line st =
     (if startswith line ''#START Curve description'' then curve_description line st
      else if startswith line ''#START Date:'' then curve_date line st
      else if startswith line ''#START Time:'' then curve_time pf line st
      else if startswith line ''#START Curve Legend '' then curve_legend line st
      else if is_points_tag line st then curve_points line st
      else data_stage pf line st)"

text \<open>Second stage: the axis description.\<close>

definition axes_stage :: "(string \<Rightarrow> 'f::{zero,minus} option) \<Rightarrow> string \<Rightarrow> 'f reader \<Rightarrow> error + 'f reader" where
  "axes_stage pf line st =
     (if startswith line ''#START axis description''
      then Inr (st\<lparr>reading_axes_description := 0\<rparr>)
      else if reading_axes_description st \<noteq> - 1 then axis_line line st
      else curve_stage pf line st)"

text \<open>First stage: the comment block.\<close>

definition body :: "(string \<Rightarrow> 'f::{zero,minus} option) \<Rightarrow> string \<Rightarrow> 'f reader \<Rightarrow> error + 'f reader" where
  "body pf line st =
     (if startswith line ''#START comment'' then Inr (st\<lparr>reading_comment := True\<rparr>)
      else if reading_comment st then Inr (comment_line line st)
      else axes_stage pf line st)"

text \<open>One iteration of \<open>for line in lines\<close>.\<close>

definition step :: "(string \<Rightarrow> 'f::{zero,minus} option) \<Rightarrow> string \<Rightarrow> 'f reader \<Rightarrow> error + 'f reader" where
  "step pf line st = body pf line (preamble line st)"

text \<open>The loop: an exception ends it, and \<open>read_grd\<close> with it.\<close>

fun run :: "(string \<Rightarrow> 'f::{zero,minus} option) \<Rightarrow> string list \<Rightarrow> 'f reader \<Rightarrow> error + 'f reader" where
  "run pf [] st = Inr st"
| "run pf (line # lines) st =
     (case step pf line st of Inl e \<Rightarrow> Inl e | Inr st' \<Rightarrow> run pf lines st')"

text \<open>\<open>read_grd\<close>, on the lines of the file.\<close>

definition read_grd :: "(string \<Rightarrow> 'f::{zero,minus} option) \<Rightarrow> string list \<Rightarrow> error + 'f GraphData" where
  "read_grd pf lines =
     (case run pf lines reader_init of Inl e \<Rightarrow> Inl e | Inr st \<Rightarrow> Inr (gdata st))"

subsection \<open>A float parser for the concrete scenarios\<close>

text \<open>
  \<open>float(s)\<close> on the plain decimal literals (\<open>12.5\<close>, \<open>-3\<close>, \<open>.5\<close>, \<open>7.\<close>, with white
  space around them), valued as rational numbers. It is used only at concrete inputs
  whose literals a binary floating-point number holds exactly, where \<open>float\<close> and the
  floating-point subtraction return these values; the general theorems are about every
  \<open>pf\<close>.
\<close>

definition dec_float :: "string \<Rightarrow> rat option" where
  "dec_float s =
     (let t = strip s;
          neg = (t \<noteq> [] \<and> hd t = CHR ''-'');
          u = (if t \<noteq> [] \<and> (hd t = CHR ''-'' \<or> hd t = CHR ''+'') then tl t else t);
          ip = takeWhile isdigit u;
          r = dropWhile isdigit u;
          fp = (case r of [] \<Rightarrow> Some []
                | c # cs \<Rightarrow> if c = CHR ''.'' \<and> list_all isdigit cs then Some cs else None)
      in case fp of
           None \<Rightarrow> None
         | Some f \<Rightarrow>
             if ip = [] \<and> f = [] then None
             else Some ((if neg then - 1 else 1)
                        * of_nat (foldl (\<lambda>a c. 10 * a + digit_val c) 0 (ip @ f))
                        / 10 ^ length f))"

subsection \<open>What a step leaves alone\<close>

text \<open>Two relations between the state before and after a piece of the loop, used to state
  what the piece does not touch: the preamble flag with the four metadata fields, and the
  comment with its flag.\<close>

definition keeps_header :: "'f reader \<Rightarrow> 'f reader \<Rightarrow> bool" where
  "keeps_header st st' =
     (first_lines st' = first_lines st
      \<and> sample_name (gdata st') = sample_name (gdata st)
      \<and> date (gdata st') = date (gdata st)
      \<and> specific_info (gdata st') = specific_info (gdata st)
      \<and> user_info (gdata st') = user_info (gdata st))"

definition keeps_comment :: "'f reader \<Rightarrow> 'f reader \<Rightarrow> bool" where
  "keeps_comment st st' =
     (reading_comment st' = reading_comment st
      \<and> comment (gdata st') = comment (gdata st))"

subsection \<open>Concrete inputs\<close>

text \<open>A preamble of one labelled line, the state that it leaves, and a body in which a
  labelled line comes after the first \<open>#START\<close>.\<close>

definition preamble_lines :: "string list" where
  "preamble_lines = ['' Sample name : abc'']"

definition preamble_state :: "rat reader" where
  "preamble_state = reader_init\<lparr>gdata := GraphData_init\<lparr>sample_name := '' abc''\<rparr>\<rparr>"

definition late_label_graph :: "rat GraphData" where
  "late_label_graph = GraphData_init\<lparr>sample_name := '' abc''\<rparr>"

text \<open>A \<open>GraphData\<close> with three curves, two of which carry the number 5.\<close>

definition two_fives :: "rat GraphData" where
  "two_fives =
     GraphData_init
       \<lparr>names := [''T'', ''U''], units := [''s'', ''V''],
        curves := [CurveData_init\<lparr>curve_number := 3, data := Arr1 [7, 8]\<rparr>,
                   CurveData_init\<lparr>curve_number := 5, data := Arr2 [[1, 2], [3, 4]]\<rparr>,
                   CurveData_init\<lparr>curve_number := 5, data := Arr1 [9, 9]\<rparr>]\<rparr>"

text \<open>A parser state with one curve, outside every block.\<close>

definition one_curve :: "rat reader" where
  "one_curve = reader_init\<lparr>gdata := GraphData_init\<lparr>curves := [CurveData_init\<lparr>curve_number := 1\<rparr>]\<rparr>\<rparr>"

text \<open>The file of the end-to-end scenario: an axis description with a header line and the
  lines \<open>s Time\<close> and \<open>V Voltage\<close>, then the curve 1 with two rows; and the
  \<open>GraphData\<close> that the parser returns for it.\<close>

definition scenario :: "string list" where
  "scenario =
     [''#START axis description'', ''header'', ''s Time'', ''V Voltage'',
      ''#END axis description'', ''#START Curve description 1'', ''#START Curve Data'',
      ''0.0 1,5'', ''1.0 2,5'', ''#END Curve 1 -'']"

definition scenario_graph :: "rat GraphData" where
  "scenario_graph =
     GraphData_init
       \<lparr>names := [''Time'', ''Voltage''], units := [[], []],
        curves := [CurveData_init\<lparr>curve_number := 1, data := Arr2 [[0, 3 / 2], [1, 5 / 2]]\<rparr>]\<rparr>"






subsection \<open>The rows of data that a run reads\<close>

text \<open>
  The lines that the loop reads as a row of numbers are those that reach the two calls of
  \<open>float\<close> at the end of the loop body. \<open>is_row_line\<close> is the condition of that
  branch inside \<open>elif reading_data\<close>: there is a latest curve and the line is not its end
  tag. \<open>reads_row\<close> adds the conditions under which the line comes that far: every earlier
  test of the chain has failed.
\<close>

definition is_row_line :: "string \<Rightarrow> 'f reader \<Rightarrow> bool" where
  "is_row_line line st =
     (case curve (gdata st) of
        Inl e \<Rightarrow> False
      | Inr c \<Rightarrow> \<not> (curve_number c \<noteq> 0
                   \<and> startswith line (''#END Curve '' @ format_d (curve_number c) @ '' -'')))"

definition reads_row :: "string \<Rightarrow> 'f reader \<Rightarrow> bool" where
  "reads_row line st =
     (\<not> startswith line ''#START comment'' \<and> \<not> reading_comment st
      \<and> \<not> startswith line ''#START axis description'' \<and> reading_axes_description st = - 1
      \<and> \<not> startswith line ''#START Curve description'' \<and> \<not> startswith line ''#START Date:''
      \<and> \<not> startswith line ''#START Time:'' \<and> \<not> startswith line ''#START Curve Legend ''
      \<and> \<not> is_points_tag line st
      \<and> \<not> startswith line ''#START Curve Data'' \<and> reading_data st
      \<and> is_row_line line st)"

text \<open>The lines of a run that are read as rows, in the order of the file; the run stops at
  the first exception.\<close>

fun data_rows :: "(string \<Rightarrow> 'f::{zero,minus} option) \<Rightarrow> string list \<Rightarrow> 'f reader \<Rightarrow> string list" where
  "data_rows pf [] st = []"
| "data_rows pf (line # lines) st =
     (if reads_row line st then [line] else [])
     @ (case step pf line st of Inl e \<Rightarrow> [] | Inr st' \<Rightarrow> data_rows pf lines st')"

text \<open>Two invariants of the loop: \<open>names\<close> and \<open>units\<close> have the same length, and every
  curve that holds data has \<open>n\<close> columns.\<close>

definition aligned :: "'f reader \<Rightarrow> bool" where
  "aligned st = (length (names (gdata st)) = length (units (gdata st)))"

definition cols_ok :: "nat \<Rightarrow> 'f GraphData \<Rightarrow> bool" where
  "cols_ok n g = (\<forall>c \<in> set (curves g). shape0 (data c) \<noteq> 0 \<longrightarrow> ncols (data c) = n)"

section \<open>Properties\<close>

subsection \<open>The lookup layer\<close>

lemma find_curve_first:
  "\<forall>c' \<in> set pre. curve_number c' \<noteq> n \<Longrightarrow> curve_number c = n \<Longrightarrow>
     find_curve n i (pre @ c # post) = int (i + length pre)"
  by (induction pre arbitrary: i) auto

lemma find_curve_none:
  "\<forall>c \<in> set cs. curve_number c \<noteq> n \<Longrightarrow> find_curve n i cs = - 1"
  by (induction cs arbitrary: i) auto

lemma index_absent: "x \<notin> set xs \<Longrightarrow> index xs x = Inl ValueError"
  by (induction xs) auto

lemma index_present:
  "x \<in> set xs \<Longrightarrow> \<exists>i. index xs x = Inr i \<and> i < length xs \<and> xs ! i = x \<and> x \<notin> set (take i xs)"
  by (induction xs) auto

lemma getitem_nat: "i < length xs \<Longrightarrow> getitem xs (int i) = Inr (xs ! i)"
  by (simp add: getitem_def)

text \<open>
  C7. When several curves carry the same number, the lookup by number takes the first of
  them in the order of \<open>curves\<close>: if \<open>c\<close> is a curve with the number \<open>n\<close> and no curve
  before it has that number, the loop of \<open>GraphData.__getitem__\<close> stops at the position of
  \<open>c\<close>, whatever follows, and the lookup answers from \<open>c\<close>. Later curves with the same
  number raise no error.
\<close>

theorem first_match:
  assumes "curves g = pre @ c # post"
    and "\<forall>c' \<in> set pre. curve_number c' \<noteq> n"
    and "curve_number c = n"
  shows "find_curve n 0 (curves g) = int (length pre)
    \<and> graph_getitem g (n, channel) =
        (case index (names g) channel of Inl e \<Rightarrow> Inl e | Inr col \<Rightarrow> curve_getitem c (int col))"
proof -
  have f: "find_curve n 0 (curves g) = int (length pre)"
    using find_curve_first [OF assms(2,3), of 0 post] assms(1) by simp
  have "getitem (curves g) (int (length pre)) = Inr c"
    using getitem_nat [of "length pre" "curves g"] assms(1) by simp
  then show ?thesis
    using f by (simp add: graph_getitem_def split: sum.split)
qed

theorem first_match_witness:
  "find_curve 5 0 (curves two_fives) = 1
   \<and> graph_getitem two_fives (5, ''U'') = Inr (Column [2, 4])"
  using first_match [of two_fives
      "[CurveData_init\<lparr>curve_number := 3, data := Arr1 [7, 8]\<rparr>]"
      "CurveData_init\<lparr>curve_number := 5, data := Arr2 [[1, 2], [3, 4]]\<rparr>"
      "[CurveData_init\<lparr>curve_number := 5, data := Arr1 [9, 9]\<rparr>]" 5 "''U''"]
  by (simp add: two_fives_def GraphData_init_def CurveData_init_def curve_getitem_def
      ellipsis_col_def ncols_def Let_def)

subsection \<open>The parser: what each stage leaves alone\<close>

lemma run_append:
  "run pf (xs @ ys) st = (case run pf xs st of Inl e \<Rightarrow> Inl e | Inr st' \<Rightarrow> run pf ys st')"
  by (induction xs arbitrary: st) (auto split: sum.splits)

lemma curve_eq: "curve g = (if curves g = [] then Inl IndexError else Inr (last (curves g)))"
proof (cases "curves g" rule: rev_cases)
  case Nil
  then show ?thesis by (simp add: curve_def getitem_def)
next
  case (snoc ys y)
  have "nat (int (length ys) + 1 - 1) = length ys"
    by simp
  then show ?thesis
    using snoc by (simp add: curve_def getitem_def)
qed

lemma set_curve_eq:
  "set_curve upd g =
     (if curves g = [] then Inl IndexError
      else Inr (g\<lparr>curves := butlast (curves g) @ [upd (last (curves g))]\<rparr>))"
  by (simp add: set_curve_def curve_eq)

lemma data_line_keeps:
  "data_line pf l st = Inr st' \<Longrightarrow> keeps_header st st' \<and> keeps_comment st st'"
  by (auto simp: data_line_def curve_eq set_curve_eq keeps_header_def keeps_comment_def
      split: sum.splits if_splits)

lemma curve_description_keeps:
  "curve_description l st = Inr st' \<Longrightarrow> keeps_header st st' \<and> keeps_comment st st'"
  by (auto simp: curve_description_def keeps_header_def keeps_comment_def split: sum.splits)

lemma curve_date_keeps:
  "curve_date l st = Inr st' \<Longrightarrow> keeps_header st st' \<and> keeps_comment st st'"
  by (auto simp: curve_date_def set_curve_eq keeps_header_def keeps_comment_def
      split: sum.splits if_splits)

lemma curve_legend_keeps:
  "curve_legend l st = Inr st' \<Longrightarrow> keeps_header st st' \<and> keeps_comment st st'"
  by (auto simp: curve_legend_def set_curve_eq keeps_header_def keeps_comment_def
      split: sum.splits if_splits)

lemma curve_time_keeps:
  "curve_time pf l st = Inr st' \<Longrightarrow> keeps_header st st' \<and> keeps_comment st st'"
  by (auto simp: curve_time_def set_curve_eq keeps_header_def keeps_comment_def
      split: sum.splits if_splits)

lemma curve_points_keeps:
  "curve_points l st = Inr st' \<Longrightarrow> keeps_header st st' \<and> keeps_comment st st'"
  by (auto simp: curve_points_def set_curve_eq keeps_header_def keeps_comment_def
      split: sum.splits if_splits)

lemma axis_line_keeps:
  "axis_line l st = Inr st' \<Longrightarrow> keeps_header st st' \<and> keeps_comment st st'"
  by (auto simp: axis_line_def keeps_header_def keeps_comment_def split: sum.splits if_splits)

lemma data_stage_keeps:
  "data_stage pf l st = Inr st' \<Longrightarrow> keeps_header st st' \<and> keeps_comment st st'"
  unfolding data_stage_def
  by (auto dest: data_line_keeps split: if_splits simp: keeps_header_def keeps_comment_def)

lemma curve_stage_keeps:
  "curve_stage pf l st = Inr st' \<Longrightarrow> keeps_header st st' \<and> keeps_comment st st'"
  unfolding curve_stage_def
  by (auto dest: curve_description_keeps curve_date_keeps curve_time_keeps curve_legend_keeps
      curve_points_keeps data_stage_keeps split: if_splits)

lemma axes_stage_keeps:
  "axes_stage pf l st = Inr st' \<Longrightarrow> keeps_header st st' \<and> keeps_comment st st'"
  unfolding axes_stage_def
  by (auto dest: axis_line_keeps curve_stage_keeps split: if_splits
      simp: keeps_header_def keeps_comment_def)

lemma body_keeps_header: "body pf l st = Inr st' \<Longrightarrow> keeps_header st st'"
  unfolding body_def
  by (auto dest: axes_stage_keeps split: if_splits simp: keeps_header_def comment_line_def)


lemma preamble_frame:
  "names (gdata (preamble l st)) = names (gdata st)"
  "units (gdata (preamble l st)) = units (gdata st)"
  "curves (gdata (preamble l st)) = curves (gdata st)"
  "comment (gdata (preamble l st)) = comment (gdata st)"
  "reading_comment (preamble l st) = reading_comment st"
  "reading_axes_description (preamble l st) = reading_axes_description st"
  "reading_data (preamble l st) = reading_data st"
  by (simp_all add: preamble_def)

lemma preamble_closed:
  "startswith l ''#START'' \<or> \<not> first_lines st \<Longrightarrow>
     preamble l st = st\<lparr>first_lines := False\<rparr>"
  by (cases "startswith l ''#START''") (simp_all add: preamble_def)

lemma step_closed:
  assumes "startswith l ''#START'' \<or> \<not> first_lines st" and "step pf l st = Inr st'"
  shows "keeps_header (st\<lparr>first_lines := False\<rparr>) st'"
  using body_keeps_header [of pf l "st\<lparr>first_lines := False\<rparr>" st'] assms
  by (simp add: step_def preamble_closed)

lemma run_closed:
  "\<not> first_lines st \<Longrightarrow> run pf ls st = Inr st' \<Longrightarrow> keeps_header st st'"
proof (induction ls arbitrary: st)
  case Nil
  then show ?case by (simp add: keeps_header_def)
next
  case (Cons l ls)
  from Cons.prems obtain st1 where s1: "step pf l st = Inr st1" and r: "run pf ls st1 = Inr st'"
    by (auto split: sum.splits)
  from step_closed [OF _ s1] Cons.prems(1) have k: "keeps_header st st1"
    by (simp add: keeps_header_def)
  then have "\<not> first_lines st1"
    using Cons.prems(1) by (simp add: keeps_header_def)
  from Cons.IH [OF this r] k show ?case
    by (simp add: keeps_header_def)
qed

text \<open>
  C9. A line that starts with \<open>#START\<close> (the comment, axis and curve tags all do) ends
  the preamble for good: whatever lines follow it, a parse that succeeds returns the four
  metadata fields as they were after the lines before it.
\<close>

theorem start_ends_preamble:
  assumes "startswith l ''#START''"
    and "run pf pre reader_init = Inr st0"
    and "read_grd pf (pre @ l # post) = Inr g"
  shows "sample_name g = sample_name (gdata st0) \<and> date g = date (gdata st0)
       \<and> specific_info g = specific_info (gdata st0) \<and> user_info g = user_info (gdata st0)"
proof -
  from assms(2,3) obtain st1 st' where s1: "step pf l st0 = Inr st1"
    and r: "run pf post st1 = Inr st'" and g: "g = gdata st'"
    by (auto simp: read_grd_def run_append split: sum.splits)
  from step_closed [OF _ s1] assms(1) have k: "keeps_header (st0\<lparr>first_lines := False\<rparr>) st1"
    by simp
  then have "\<not> first_lines st1"
    by (simp add: keeps_header_def)
  from run_closed [OF this r] k g show ?thesis
    by (simp add: keeps_header_def)
qed

theorem start_ends_preamble_witness:
  "read_grd dec_float (preamble_lines @ ''#START'' # ['' Date        : x'']) = Inr late_label_graph
   \<and> sample_name late_label_graph = '' abc'' \<and> date late_label_graph = []"
proof -
  have h1: "startswith ''#START'' ''#START''"
    by (simp add: startswith_def)
  have h2: "run dec_float preamble_lines reader_init = Inr preamble_state"
    by (simp add: preamble_lines_def preamble_state_def reader_init_def step_def preamble_def
        body_def axes_stage_def curve_stage_def data_stage_def is_points_tag_def
        startswith_def split_on1_def GraphData_init_def)
  have h3: "read_grd dec_float (preamble_lines @ ''#START'' # ['' Date        : x''])
      = Inr late_label_graph"
    by (simp add: read_grd_def late_label_graph_def preamble_lines_def reader_init_def step_def
        preamble_def body_def axes_stage_def curve_stage_def data_stage_def is_points_tag_def
        startswith_def split_on1_def GraphData_init_def)
  from start_ends_preamble [OF h1 h2 h3] h3 show ?thesis
    by (simp add: preamble_state_def late_label_graph_def GraphData_init_def)
qed

lemma startswith_clash:
  "startswith l p \<Longrightarrow> startswith l q \<Longrightarrow>
     take (min (length p) (length q)) p = take (min (length p) (length q)) q"
proof -
  assume p: "startswith l p" and q: "startswith l q"
  have "take (min (length p) (length q)) p = take (min (length p) (length q)) (take (length p) l)"
    using p by (simp add: startswith_def)
  also have "\<dots> = take (min (length p) (length q)) (take (length q) l)"
    by (simp add: min_def)
  also have "\<dots> = take (min (length p) (length q)) q"
    using q by (simp add: startswith_def)
  finally show ?thesis .
qed

lemma step_outside_comment:
  assumes "\<not> startswith l ''#START comment''" and "\<not> reading_comment st"
    and "step pf l st = Inr st'"
  shows "keeps_comment st st'"
proof -
  have "axes_stage pf l (preamble l st) = Inr st'"
    using assms by (simp add: step_def body_def preamble_frame)
  from axes_stage_keeps [OF this] show ?thesis
    by (simp add: keeps_comment_def preamble_frame)
qed

lemma run_outside_comment:
  "\<forall>l \<in> set ls. \<not> startswith l ''#START comment'' \<Longrightarrow> \<not> reading_comment st \<Longrightarrow>
     run pf ls st = Inr st' \<Longrightarrow> keeps_comment st st'"
proof (induction ls arbitrary: st)
  case Nil
  then show ?case by (simp add: keeps_comment_def)
next
  case (Cons l ls)
  from Cons.prems obtain st1 where s1: "step pf l st = Inr st1" and r: "run pf ls st1 = Inr st'"
    by (auto split: sum.splits)
  from step_outside_comment [OF _ Cons.prems(2) s1] Cons.prems(1) have k: "keeps_comment st st1"
    by simp
  then have "\<not> reading_comment st1"
    using Cons.prems(2) by (simp add: keeps_comment_def)
  from Cons.IH [OF _ this r] Cons.prems(1) k show ?case
    by (simp add: keeps_comment_def)
qed

lemma startswith_prefix: "startswith l (p @ q) \<Longrightarrow> startswith l p"
proof -
  assume a: "startswith l (p @ q)"
  have "take (length p) l = take (length p) (take (length (p @ q)) l)"
    by (simp add: min_def)
  also have "\<dots> = take (length p) (p @ q)"
    using a by (simp add: startswith_def)
  finally show ?thesis
    by (simp add: startswith_def)
qed

lemma strip_no_space: "strip s \<noteq> '' ''"
proof
  assume a: "strip s = '' ''"
  let ?t = "dropWhile isspace (rev (dropWhile isspace s))"
  from a have "rev ?t = '' ''"
    by (simp add: strip_def)
  then have "rev (rev ?t) = rev '' ''"
    by (rule arg_cong)
  then have t: "?t = '' ''"
    by simp
  then have "?t \<noteq> []" by simp
  then have "\<not> isspace (hd ?t)" by (rule hd_dropWhile)
  with t show False by (simp add: isspace_def)
qed

lemma step_comment_start:
  assumes "startswith l ''#START comment''"
  shows "step pf l st = Inr (st\<lparr>first_lines := False, reading_comment := True\<rparr>)"
proof -
  have "startswith l (''#START'' @ '' comment'')"
    using assms by simp
  then have "startswith l ''#START''"
    by (rule startswith_prefix)
  with assms show ?thesis
    by (simp add: step_def body_def preamble_closed)
qed


subsection \<open>The comment block\<close>

lemma step_in_comment:
  assumes "reading_comment st" and "\<not> startswith l ''#START comment''"
  shows "step pf l st = Inr (comment_line l (preamble l st))"
  using assms by (simp add: step_def body_def preamble_frame)

lemma end_is_no_start: "startswith e ''#END comment'' \<Longrightarrow> \<not> startswith e ''#START comment''"
proof
  assume "startswith e ''#END comment''" and "startswith e ''#START comment''"
  from startswith_clash [OF this] show False by simp
qed

text \<open>
  C2 (amended). A file with one comment block which holds the single line \<open>l\<close>, other
  than a line of one space: the parse, when it succeeds, returns \<open>comment == [l.strip()]\<close>,
  the line without its leading and trailing white space. The block is opened by a line
  starting with \<open>#START comment\<close> and closed by one starting with \<open>#END comment\<close>; no
  other line of the file opens a comment block, and \<open>l\<close> carries neither tag.
\<close>

theorem single_comment_line:
  assumes clean: "\<forall>x \<in> set pre \<union> set post. \<not> startswith x ''#START comment''"
    and s: "startswith s ''#START comment''"
    and e: "startswith e ''#END comment''"
    and l: "\<not> startswith l ''#START comment''" "\<not> startswith l ''#END comment''"
    and nsp: "l \<noteq> '' ''"
    and ok: "read_grd pf (pre @ s # l # e # post) = Inr g"
  shows "comment g = [strip l]"
proof -
  from ok obtain st0 st4 where r0: "run pf pre reader_init = Inr st0"
    and r1: "run pf (s # l # e # post) st0 = Inr st4" and g: "g = gdata st4"
    by (auto simp: read_grd_def run_append split: sum.splits)
  have k0: "keeps_comment reader_init st0"
    using run_outside_comment [OF _ _ r0] clean by (simp add: reader_init_def)
  then have c0: "comment (gdata st0) = []" "\<not> reading_comment st0"
    by (simp_all add: keeps_comment_def reader_init_def GraphData_init_def)
  let ?st1 = "st0\<lparr>first_lines := False, reading_comment := True\<rparr>"
  let ?st2 = "comment_line l (preamble l ?st1)"
  let ?st3 = "comment_line e (preamble e ?st2)"
  have s1: "step pf s st0 = Inr ?st1"
    by (rule step_comment_start [OF s])
  have s2: "step pf l ?st1 = Inr ?st2"
    by (rule step_in_comment) (simp_all add: l)
  have c2: "comment (gdata ?st2) = [strip l]" "reading_comment ?st2"
    using c0 l by (simp_all add: comment_line_def preamble_frame)
  have s3: "step pf e ?st2 = Inr ?st3"
    by (rule step_in_comment [OF c2(2) end_is_no_start [OF e]])
  have c3: "comment (gdata ?st3) = [strip l]" "\<not> reading_comment ?st3"
    using c2 e strip_no_space [of l] by (simp_all add: comment_line_def preamble_frame)
  from r1 s1 s2 s3 have r4: "run pf post ?st3 = Inr st4"
    by simp
  have "keeps_comment ?st3 st4"
    using run_outside_comment [OF _ c3(2) r4] clean by simp
  with c3 g show ?thesis
    by (simp add: keeps_comment_def)
qed

text \<open>The definitions that evaluate a comment block at a concrete input.\<close>

lemmas comment_eval = read_grd_def reader_init_def GraphData_init_def step_def preamble_def body_def
  comment_line_def startswith_def strip_def isspace_def

theorem single_comment_line_witness:
  "read_grd dec_float [''#START comment'', ''  x '', ''#END comment''] = Inr (GraphData_init\<lparr>comment := [''x'']\<rparr>)
   \<and> comment (GraphData_init\<lparr>comment := [''x'']\<rparr> :: rat GraphData) = [strip ''  x '']"
proof -
  have h: "read_grd dec_float ([] @ ''#START comment'' # ''  x '' # ''#END comment'' # [])
      = Inr (GraphData_init\<lparr>comment := [''x'']\<rparr>)"
    by (simp add: comment_eval)
  from single_comment_line [OF _ _ _ _ _ _ h] h show ?thesis
    by (simp add: startswith_def)
qed

text \<open>
  C2 as stated fails. The comment block with the single line of one space is parsed to
  \<open>comment == [""]\<close>, not to \<open>[]\<close>: the line is stripped before it is appended, so the
  test \<open>data.comment == [" "]\<close> at the end of the block never holds. And the block with the
  single line \<open>" x"\<close> is parsed to \<open>comment == ["x"]\<close>, not to the line itself.
\<close>

theorem single_space_comment_kept:
  "read_grd dec_float [''#START comment'', '' '', ''#END comment'']
     = Inr (GraphData_init\<lparr>comment := [[]]\<rparr>)
   \<and> read_grd dec_float [''#START comment'', '' x'', ''#END comment'']
     = Inr (GraphData_init\<lparr>comment := [''x'']\<rparr>)"
  by (simp add: comment_eval)

subsection \<open>Where the curve tags are dispatched\<close>

lemma date_clashes:
  assumes "startswith l ''#START Date:''"
  shows "\<not> startswith l ''#START comment''" "\<not> startswith l ''#START axis description''"
    "\<not> startswith l ''#START Curve description''"
  using startswith_clash [OF assms] by fastforce+

lemma time_clashes:
  assumes "startswith l ''#START Time:''"
  shows "\<not> startswith l ''#START comment''" "\<not> startswith l ''#START axis description''"
    "\<not> startswith l ''#START Curve description''" "\<not> startswith l ''#START Date:''"
  using startswith_clash [OF assms] by fastforce+

lemma legend_clashes:
  assumes "startswith l ''#START Curve Legend ''"
  shows "\<not> startswith l ''#START comment''" "\<not> startswith l ''#START axis description''"
    "\<not> startswith l ''#START Curve description''" "\<not> startswith l ''#START Date:''"
    "\<not> startswith l ''#START Time:''"
  using startswith_clash [OF assms] by fastforce+

lemma step_date:
  assumes "startswith l ''#START Date:''" "\<not> reading_comment st" "reading_axes_description st = - 1"
  shows "step pf l st = curve_date l (preamble l st)"
  using assms date_clashes [OF assms(1)]
  by (simp add: step_def body_def axes_stage_def curve_stage_def preamble_frame)

lemma step_time:
  assumes "startswith l ''#START Time:''" "\<not> reading_comment st" "reading_axes_description st = - 1"
  shows "step pf l st = curve_time pf l (preamble l st)"
  using assms time_clashes [OF assms(1)]
  by (simp add: step_def body_def axes_stage_def curve_stage_def preamble_frame)

lemma step_legend:
  assumes "startswith l ''#START Curve Legend ''" "\<not> reading_comment st"
    "reading_axes_description st = - 1"
  shows "step pf l st = curve_legend l (preamble l st)"
  using assms legend_clashes [OF assms(1)]
  by (simp add: step_def body_def axes_stage_def curve_stage_def preamble_frame)

subsection \<open>The time tag\<close>

lemma split_on_hd: "\<exists>ws. split_on c xs = takeWhile (\<lambda>x. x \<noteq> c) xs # ws"
  by (induction xs) auto

lemma split_on_time: "\<exists>ws. split_on (CHR '':'') (''#START Time:'' @ rest)
    = ''#START Time'' # takeWhile (\<lambda>x. x \<noteq> CHR '':'') rest # ws"
  using split_on_hd [of "CHR '':''" rest] by auto

lemma time_difference_two:
  assumes "split_ws (takeWhile (\<lambda>c. c \<noteq> CHR '':'') rest) = t0 # t1 # ts"
    and "pf (replace (CHR '','') (CHR ''.'') t0) = Some a"
    and "pf (replace (CHR '','') (CHR ''.'') t1) = Some b"
  shows "time_difference pf (''#START Time:'' @ rest) = Inr (b - a)"
proof -
  obtain ws where "split_on (CHR '':'') (''#START Time:'' @ rest)
    = ''#START Time'' # takeWhile (\<lambda>x. x \<noteq> CHR '':'') rest # ws"
    using split_on_time by blast
  then show ?thesis
    using assms by (simp add: time_difference_def getitem_def float_comma_def Let_def)
qed

text \<open>
  C5. A line \<open>#START Time:\<close> followed by two values \<open>t0\<close> and \<open>t1\<close> separated by
  white space (up to the next colon, if there is one), reached outside the comment and axis
  blocks when a curve exists: the step succeeds and sets the duration of the latest curve to
  \<open>float(t1) - float(t0)\<close>, each value parsed after its commas have become dots. The
  witness is the line with the times \<open>10,0 12,5\<close>, which gives the duration 2.5.
\<close>

theorem time_tag_sets_duration:
  assumes "\<not> reading_comment st" and "reading_axes_description st = - 1"
    and "curves (gdata st) \<noteq> []"
    and "split_ws (takeWhile (\<lambda>c. c \<noteq> CHR '':'') rest) = t0 # t1 # ts"
    and "pf (replace (CHR '','') (CHR ''.'') t0) = Some a"
    and "pf (replace (CHR '','') (CHR ''.'') t1) = Some b"
  shows "\<exists>st'. step pf (''#START Time:'' @ rest) st = Inr st'
    \<and> curves (gdata st')
        = butlast (curves (gdata st)) @ [(last (curves (gdata st)))\<lparr>duration := b - a\<rparr>]"
proof -
  have "startswith (''#START Time:'' @ rest) ''#START Time:''"
    by (simp add: startswith_def)
  from step_time [OF this assms(1,2)] time_difference_two [OF assms(4,5,6)] assms(3)
  show ?thesis
    by (simp add: curve_time_def set_curve_eq preamble_frame)
qed

lemma split_ws_times: "split_ws '' 10,0 12,5'' = [''10,0'', ''12,5'']"
  by code_simp

theorem time_tag_sets_duration_witness:
  "\<exists>st'. step dec_float (''#START Time:'' @ '' 10,0 12,5'') one_curve = Inr st'
     \<and> curves (gdata st') = [CurveData_init\<lparr>curve_number := 1, duration := 5 / 2\<rparr>]"
proof -
  have d: "dec_float ''10.0'' = Some 10" "dec_float ''12.5'' = Some (25 / 2)"
    by code_simp+
  have "\<exists>st'. step dec_float (''#START Time:'' @ '' 10,0 12,5'') one_curve = Inr st'
    \<and> curves (gdata st')
        = butlast (curves (gdata one_curve))
          @ [(last (curves (gdata one_curve)))\<lparr>duration := 25 / 2 - 10\<rparr>]"
    by (rule time_tag_sets_duration [where ?t0.0 = "''10,0''" and ?t1.0 = "''12,5''" and ts = "[]"])
      (simp_all add: one_curve_def reader_init_def GraphData_init_def split_ws_times replace_def d)
  then show ?thesis
    by (simp add: one_curve_def reader_init_def GraphData_init_def)
qed

subsection \<open>Curve tags before the first curve\<close>

lemma tag_has_colon:
  assumes "startswith l p" and "CHR '':'' \<in> set p"
  shows "CHR '':'' \<in> set l"
proof -
  have "set (take (length p) l) \<subseteq> set l"
    by (rule set_take_subset)
  with assms show ?thesis
    by (auto simp: startswith_def)
qed

lemma date_fails:
  assumes "startswith l ''#START Date:''" and "curves (gdata st) = []"
  shows "curve_date l st = Inl IndexError"
proof -
  have "CHR '':'' \<in> set l"
    by (rule tag_has_colon [OF assms(1)]) simp
  with assms(2) show ?thesis
    by (simp add: curve_date_def split_on1_def getitem_def set_curve_eq)
qed

lemma legend_fails:
  assumes "curves (gdata st) = []"
  shows "curve_legend l st = Inl IndexError"
  using assms by (simp add: curve_legend_def split_on1_def getitem_def set_curve_eq)

lemma time_fails:
  assumes "startswith l ''#START Time:''" and "curves (gdata st) = []"
  shows "curve_time pf l st =
     (case split_ws (takeWhile (\<lambda>c. c \<noteq> CHR '':'') (drop 12 l)) of
        t0 # t1 # ts \<Rightarrow>
          if pf (replace (CHR '','') (CHR ''.'') t1) = None
             \<or> pf (replace (CHR '','') (CHR ''.'') t0) = None
          then Inl ValueError else Inl IndexError
      | _ \<Rightarrow> Inl IndexError)"
proof -
  have t: "take (length ''#START Time:'') l = ''#START Time:''"
    using assms(1) by (simp only: startswith_def)
  have "take (length ''#START Time:'') l @ drop (length ''#START Time:'') l = l"
    by (rule append_take_drop_id)
  then have "''#START Time:'' @ drop (length ''#START Time:'') l = l"
    by (simp only: t)
  moreover have "length ''#START Time:'' = 12"
    by simp
  ultimately have "''#START Time:'' @ drop 12 l = l"
    by (simp only:)
  then have l: "l = ''#START Time:'' @ drop 12 l"
    by (rule sym)
  obtain ws where "split_on (CHR '':'') (''#START Time:'' @ drop 12 l)
    = ''#START Time'' # takeWhile (\<lambda>x. x \<noteq> CHR '':'') (drop 12 l) # ws"
    using split_on_time by blast
  with l have s: "split_on (CHR '':'') l
    = ''#START Time'' # takeWhile (\<lambda>x. x \<noteq> CHR '':'') (drop 12 l) # ws"
    by simp
  let ?times = "split_ws (takeWhile (\<lambda>x. x \<noteq> CHR '':'') (drop 12 l))"
  show ?thesis
  proof (cases ?times)
    case Nil
    then show ?thesis
      by (simp add: curve_time_def time_difference_def s getitem_def Let_def)
  next
    case (Cons t0 rest)
    show ?thesis
    proof (cases rest)
      case Nil
      with Cons show ?thesis
        by (simp add: curve_time_def time_difference_def s getitem_def Let_def)
    next
      case (Cons t1 ts)
      with \<open>?times = t0 # rest\<close> have "?times = t0 # t1 # ts"
        by simp
      then show ?thesis
        using assms(2)
        by (simp add: curve_time_def time_difference_def s getitem_def float_comma_def Let_def
            set_curve_eq split: option.split)
    qed
  qed
qed

text \<open>
  C10 (amended). A curve-date, curve-time or curve-legend tag line \<open>l\<close> that the parser
  reaches outside the comment block and outside the axis description while no curve exists
  makes the parse fail, whatever follows the line; the line is not skipped. For the date
  and the legend tag the error is the \<open>IndexError\<close> of the lookup of the latest curve in
  the empty \<open>curves\<close>. For the time tag the two values are read first: two values of which
  one is no float give \<open>ValueError\<close>, and every other line gives \<open>IndexError\<close> (fewer
  than two values, or two floats and then the lookup of the latest curve).
\<close>

theorem tag_before_curve_fails:
  assumes "run pf pre reader_init = Inr st"
    and "curves (gdata st) = []"
    and "\<not> reading_comment st" and "reading_axes_description st = - 1"
  shows "(startswith l ''#START Date:'' \<or> startswith l ''#START Curve Legend ''
            \<longrightarrow> read_grd pf (pre @ l # post) = Inl IndexError)
       \<and> (startswith l ''#START Time:'' \<longrightarrow>
            read_grd pf (pre @ l # post) =
              (case split_ws (takeWhile (\<lambda>c. c \<noteq> CHR '':'') (drop 12 l)) of
                 t0 # t1 # ts \<Rightarrow>
                   if pf (replace (CHR '','') (CHR ''.'') t1) = None
                      \<or> pf (replace (CHR '','') (CHR ''.'') t0) = None
                   then Inl ValueError else Inl IndexError
               | _ \<Rightarrow> Inl IndexError))"
proof -
  have c: "curves (gdata (preamble l st)) = []"
    using assms(2) by (simp add: preamble_frame)
  have r: "read_grd pf (pre @ l # post) = Inl e" if "step pf l st = Inl e" for e
    using that assms(1) by (simp add: read_grd_def run_append)
  have d: "read_grd pf (pre @ l # post) = Inl IndexError" if "startswith l ''#START Date:''"
    using step_date [OF that assms(3,4)] date_fails [OF that c] by (simp add: r)
  have g: "read_grd pf (pre @ l # post) = Inl IndexError" if "startswith l ''#START Curve Legend ''"
    using step_legend [OF that assms(3,4)] legend_fails [OF c] by (simp add: r)
  have t: "read_grd pf (pre @ l # post) =
              (case split_ws (takeWhile (\<lambda>c. c \<noteq> CHR '':'') (drop 12 l)) of
                 t0 # t1 # ts \<Rightarrow>
                   if pf (replace (CHR '','') (CHR ''.'') t1) = None
                      \<or> pf (replace (CHR '','') (CHR ''.'') t0) = None
                   then Inl ValueError else Inl IndexError
               | _ \<Rightarrow> Inl IndexError)" if "startswith l ''#START Time:''"
  proof -
    have "\<exists>e. step pf l st = Inl e \<and> Inl e =
              (case split_ws (takeWhile (\<lambda>c. c \<noteq> CHR '':'') (drop 12 l)) of
                 t0 # t1 # ts \<Rightarrow>
                   if pf (replace (CHR '','') (CHR ''.'') t1) = None
                      \<or> pf (replace (CHR '','') (CHR ''.'') t0) = None
                   then Inl ValueError else Inl IndexError
               | _ \<Rightarrow> (Inl IndexError :: error + 'a GraphData))"
      using step_time [OF that assms(3,4), of pf] time_fails [OF that c, of pf]
      by (simp split: list.split)
    then show ?thesis
      using r by metis
  qed
  from d g t show ?thesis
    by blast
qed

lemma time_tokens: "split_ws '' a 1'' = [''a'', ''1'']"
  by code_simp

lemma time_floats:
  "dec_float ''10.0'' = Some 10" "dec_float ''12.5'' = Some (25 / 2)"
  "dec_float ''1'' = Some 1" "dec_float ''a'' = None"
  by code_simp+

theorem tag_before_curve_fails_witness:
  "read_grd dec_float ([''some line''] @ ''#START Date: 01.02.2003'' # [''next'']) = Inl IndexError
   \<and> read_grd dec_float ([''some line''] @ ''#START Curve Legend 1: abc'' # [''next''])
       = Inl IndexError
   \<and> read_grd dec_float ([''some line''] @ ''#START Time: 10,0 12,5'' # [''next''])
       = Inl IndexError
   \<and> read_grd dec_float ([''some line''] @ ''#START Time: a 1'' # [''next'']) = Inl ValueError"
proof -
  have h: "run dec_float [''some line''] reader_init = Inr reader_init"
    by (simp add: reader_init_def step_def preamble_def body_def axes_stage_def
        curve_stage_def data_stage_def is_points_tag_def startswith_def GraphData_init_def)
  have i: "curves (gdata (reader_init :: rat reader)) = []"
    "\<not> reading_comment (reader_init :: rat reader)"
    "reading_axes_description (reader_init :: rat reader) = - 1"
    by (simp_all add: reader_init_def GraphData_init_def)
  note fails = tag_before_curve_fails [OF h i]
  have a: "read_grd dec_float ([''some line''] @ ''#START Date: 01.02.2003'' # [''next''])
      = Inl IndexError"
    using fails [of "''#START Date: 01.02.2003''" "[''next'']"] by (simp add: startswith_def)
  have b: "read_grd dec_float ([''some line''] @ ''#START Curve Legend 1: abc'' # [''next''])
      = Inl IndexError"
    using fails [of "''#START Curve Legend 1: abc''" "[''next'']"] by (simp add: startswith_def)
  have c: "read_grd dec_float ([''some line''] @ ''#START Time: 10,0 12,5'' # [''next''])
      = Inl IndexError"
    using fails [of "''#START Time: 10,0 12,5''" "[''next'']"]
    by (simp add: startswith_def split_ws_times replace_def time_floats)
  have d: "read_grd dec_float ([''some line''] @ ''#START Time: a 1'' # [''next''])
      = Inl ValueError"
    using fails [of "''#START Time: a 1''" "[''next'']"]
    by (simp add: startswith_def time_tokens replace_def time_floats)
  from a b c d show ?thesis
    by blast
qed

text \<open>
  C10 as stated fails for a tag line inside a block: in a comment block the date tag line is
  taken as a line of the comment, and in an axis description the time tag line is taken as
  the header line. Both files have no curve and are parsed without an error.
\<close>

theorem tag_inside_block_ignored:
  "read_grd dec_float [''#START comment'', ''#START Date: 01.02.2003'', ''#END comment'']
     = Inr (GraphData_init\<lparr>comment := [''#START Date: 01.02.2003'']\<rparr>)
   \<and> read_grd dec_float [''#START axis description'', ''#START Time: 1 2'',
        ''#END axis description'']
     = Inr GraphData_init"
  by (simp add: comment_eval axes_stage_def axis_line_def)

subsection \<open>The end-to-end scenario\<close>

lemma scenario_axes:
  "axis_name ''s Time'' = Inr ''Time''" "axis_unit ''s Time'' = Inr []"
  "axis_name ''V Voltage'' = Inr ''Voltage''" "axis_unit ''V Voltage'' = Inr []"
  by code_simp+

lemma scenario_number:
  "getitem (split_ws ''#START Curve description 1'') 3 = Inr ''1''" "py_int ''1'' = Inr 1"
  "format_d 1 = ''1''"
  by code_simp+

lemma scenario_tokens:
  "split_ws ''0.0 1,5'' = [''0.0'', ''1,5'']" "split_ws ''1.0 2,5'' = [''1.0'', ''2,5'']"
  by code_simp+

lemma scenario_rows:
  assumes "pf ''0.0'' = Some a" "pf ''1.5'' = Some b" "pf ''1.0'' = Some c" "pf ''2.5'' = Some d"
  shows "parse_row pf ''0.0 1,5'' = Inr [a, b]" "parse_row pf ''1.0 2,5'' = Inr [c, d]"
  using assms by (simp_all add: parse_row_def scenario_tokens replace_def)

lemmas stage_eval = step_def preamble_def body_def axes_stage_def curve_stage_def data_stage_def
  is_points_tag_def startswith_def

text \<open>
  C1 (amended). The file \<open>scenario\<close> is parsed to a \<open>GraphData\<close> with
  \<open>names == ["Time", "Voltage"]\<close>, \<open>units == ["", ""]\<close> and exactly one curve, numbered
  1, whose data matrix is \<open>[[0.0, 1.5], [1.0, 2.5]]\<close>: the rows hold the floats of the
  literals \<open>0.0\<close>, \<open>1.5\<close>, \<open>1.0\<close> and \<open>2.5\<close>, the commas of the file read as
  decimal points. The units are empty because an axis line gives a unit only when it has
  more than ten fields.
\<close>

theorem scenario_parse:
  assumes "pf ''0.0'' = Some a" "pf ''1.5'' = Some b" "pf ''1.0'' = Some c" "pf ''2.5'' = Some d"
  shows "read_grd pf scenario =
     Inr (GraphData_init
       \<lparr>names := [''Time'', ''Voltage''], units := [[], []],
        curves := [CurveData_init\<lparr>curve_number := 1, data := Arr2 [[a, b], [c, d]]\<rparr>]\<rparr>)"
  by (simp add: read_grd_def scenario_def reader_init_def GraphData_init_def CurveData_init_def
      stage_eval axis_line_def scenario_axes curve_description_def scenario_number
      data_line_def curve_eq set_curve_eq scenario_rows [OF assms] shape0_def vstack_def
      atleast_2d_def)

lemma scenario_floats:
  "dec_float ''0.0'' = Some 0" "dec_float ''1.5'' = Some (3 / 2)"
  "dec_float ''1.0'' = Some 1" "dec_float ''2.5'' = Some (5 / 2)"
  by code_simp+

theorem scenario_parse_witness:
  "read_grd dec_float scenario = Inr scenario_graph"
  unfolding scenario_graph_def by (rule scenario_parse [OF scenario_floats])

text \<open>
  C1 as stated fails at the units: the axis lines \<open>s Time\<close> and \<open>V Voltage\<close> have two
  fields each, so the parser stores the empty unit for both, not \<open>s\<close> and \<open>V\<close>.
\<close>

theorem scenario_units_empty:
  "read_grd dec_float scenario = Inr scenario_graph
   \<and> names scenario_graph = [''Time'', ''Voltage'']
   \<and> units scenario_graph = ['''', '''']
   \<and> units scenario_graph \<noteq> [''s'', ''V'']"
  by code_simp

subsection \<open>The lookup of a channel of a curve\<close>








subsection \<open>The axis description\<close>













subsection \<open>Names, units and the columns of the data\<close>

lemma those_length: "those xs = Some ys \<Longrightarrow> length ys = length xs"
  by (induction xs arbitrary: ys) (auto split: option.splits)

lemma parse_row_length: "parse_row pf l = Inr row \<Longrightarrow> length row = length (split_ws l)"
  using those_length [of "map (\<lambda>item. pf (replace (CHR '','') (CHR ''.'') item)) (split_ws l)" row]
  by (simp add: parse_row_def split: option.splits)

lemma vstack_ncols: "vstack a row = Inr b \<Longrightarrow> ncols b = length row"
  by (auto simp: vstack_def ncols_def split: list.splits if_splits)

lemma cols_ok_last:
  assumes "cols_ok n g" and "curves g \<noteq> []"
    and "shape0 (data c) \<noteq> 0 \<longrightarrow> ncols (data c) = n"
  shows "cols_ok n (g\<lparr>curves := butlast (curves g) @ [c]\<rparr>)"
  using assms by (auto simp: cols_ok_def dest: in_set_butlastD)

lemma cols_ok_field:
  assumes "cols_ok n g" and "curves g \<noteq> []" and "data c = data (last (curves g))"
  shows "cols_ok n (g\<lparr>curves := butlast (curves g) @ [c]\<rparr>)"
proof (rule cols_ok_last [OF assms(1,2)])
  have "last (curves g) \<in> set (curves g)"
    using assms(2) by simp
  with assms(1,3) show "shape0 (data c) \<noteq> 0 \<longrightarrow> ncols (data c) = n"
    by (simp add: cols_ok_def)
qed

lemma curve_description_cols:
  "cols_ok n (gdata st) \<Longrightarrow> curve_description l st = Inr st' \<Longrightarrow> cols_ok n (gdata st')"
  by (auto simp: curve_description_def cols_ok_def CurveData_init_def shape0_def
      split: sum.splits)

lemma curve_date_cols:
  "cols_ok n (gdata st) \<Longrightarrow> curve_date l st = Inr st' \<Longrightarrow> cols_ok n (gdata st')"
  by (auto simp: curve_date_def set_curve_eq cols_ok_field split: sum.splits if_splits)

lemma curve_legend_cols:
  "cols_ok n (gdata st) \<Longrightarrow> curve_legend l st = Inr st' \<Longrightarrow> cols_ok n (gdata st')"
  by (auto simp: curve_legend_def set_curve_eq cols_ok_field split: sum.splits if_splits)

lemma curve_time_cols:
  "cols_ok n (gdata st) \<Longrightarrow> curve_time pf l st = Inr st' \<Longrightarrow> cols_ok n (gdata st')"
  by (auto simp: curve_time_def set_curve_eq cols_ok_field split: sum.splits if_splits)

lemma curve_points_cols:
  "cols_ok n (gdata st) \<Longrightarrow> curve_points l st = Inr st' \<Longrightarrow> cols_ok n (gdata st')"
  by (auto simp: curve_points_def set_curve_eq cols_ok_field split: sum.splits if_splits)

lemma axis_line_cols:
  "cols_ok n (gdata st) \<Longrightarrow> axis_line l st = Inr st' \<Longrightarrow> cols_ok n (gdata st')"
  by (auto simp: axis_line_def cols_ok_def split: sum.splits if_splits)

lemma data_line_cols:
  assumes "cols_ok n (gdata st)" and "data_line pf l st = Inr st'"
    and "is_row_line l st \<longrightarrow> length (split_ws l) = n"
  shows "cols_ok n (gdata st')"
proof (cases "is_row_line l st")
  case False
  with assms(2) have "gdata st' = gdata st"
    by (auto simp: data_line_def is_row_line_def curve_eq split: if_splits)
  with assms(1) show ?thesis by simp
next
  case True
  with assms(3) have n: "length (split_ws l) = n"
    by simp
  from True have ne: "curves (gdata st) \<noteq> []"
    by (auto simp: is_row_line_def curve_eq split: if_splits)
  from True assms(2) obtain row a where row: "parse_row pf l = Inr row"
    and st': "st' = st\<lparr>gdata := (gdata st)\<lparr>curves := butlast (curves (gdata st))
        @ [(last (curves (gdata st)))\<lparr>data := a\<rparr>]\<rparr>\<rparr>"
    and a: "a = Arr1 row \<or> vstack (data (last (curves (gdata st)))) row = Inr a"
    by (auto simp: data_line_def is_row_line_def curve_eq set_curve_eq
        split: if_splits sum.splits)
  from a have "ncols a = length row"
  proof
    assume "a = Arr1 row"
    then show ?thesis by (simp add: ncols_def)
  next
    assume "vstack (data (last (curves (gdata st)))) row = Inr a"
    then show ?thesis by (rule vstack_ncols)
  qed
  with parse_row_length [OF row] n have "ncols a = n"
    by simp
  then have "cols_ok n ((gdata st)\<lparr>curves := butlast (curves (gdata st))
        @ [(last (curves (gdata st)))\<lparr>data := a\<rparr>]\<rparr>)"
    by (intro cols_ok_last [OF assms(1) ne]) simp
  with st' show ?thesis by simp
qed

lemma data_stage_cols:
  assumes "cols_ok n (gdata st)" and "data_stage pf l st = Inr st'"
    and "\<not> startswith l ''#START Curve Data'' \<and> reading_data st \<and> is_row_line l st
           \<longrightarrow> length (split_ws l) = n"
  shows "cols_ok n (gdata st')"
proof (cases "startswith l ''#START Curve Data''")
  case True
  with assms(1,2) show ?thesis
    by (auto simp: data_stage_def)
next
  case False
  show ?thesis
  proof (cases "reading_data st")
    case True
    with False assms(2) have "data_line pf l st = Inr st'"
      by (simp add: data_stage_def)
    from data_line_cols [OF assms(1) this] assms(3) False True show ?thesis
      by simp
  next
    case nr: False
    with False assms(1,2) show ?thesis
      by (auto simp: data_stage_def)
  qed
qed

lemma curve_stage_cols:
  assumes "cols_ok n (gdata st)" and "curve_stage pf l st = Inr st'"
    and "\<not> startswith l ''#START Curve description'' \<and> \<not> startswith l ''#START Date:''
         \<and> \<not> startswith l ''#START Time:'' \<and> \<not> startswith l ''#START Curve Legend ''
         \<and> \<not> is_points_tag l st
         \<and> \<not> startswith l ''#START Curve Data'' \<and> reading_data st \<and> is_row_line l st
           \<longrightarrow> length (split_ws l) = n"
  shows "cols_ok n (gdata st')"
  using assms(2,3) unfolding curve_stage_def
  by (auto dest: curve_description_cols [OF assms(1)] curve_date_cols [OF assms(1)]
      curve_time_cols [OF assms(1)] curve_legend_cols [OF assms(1)]
      curve_points_cols [OF assms(1)] data_stage_cols [OF assms(1)] split: if_splits)

lemma step_cols:
  assumes "cols_ok n (gdata st)" and "step pf l st = Inr st'"
    and "reads_row l st \<longrightarrow> length (split_ws l) = n"
  shows "cols_ok n (gdata st')"
proof -
  let ?p = "preamble l st"
  have p: "cols_ok n (gdata ?p)"
    using assms(1) by (simp add: cols_ok_def preamble_frame)
  have rr: "reads_row l ?p = reads_row l st"
    by (simp add: reads_row_def is_row_line_def is_points_tag_def curve_def preamble_frame)
  from assms(2) have b: "body pf l ?p = Inr st'"
    by (simp add: step_def)
  show ?thesis
  proof (cases "startswith l ''#START comment'' \<or> reading_comment ?p")
    case True
    with b have "curves (gdata st') = curves (gdata ?p)"
      by (auto simp: body_def comment_line_def split: if_splits)
    with p show ?thesis
      by (simp add: cols_ok_def)
  next
    case nc: False
    with b have a: "axes_stage pf l ?p = Inr st'"
      by (simp add: body_def)
    show ?thesis
    proof (cases "startswith l ''#START axis description'' \<or> reading_axes_description ?p \<noteq> - 1")
      case True
      with a have "curves (gdata st') = curves (gdata ?p) \<or> axis_line l ?p = Inr st'"
        by (auto simp: axes_stage_def split: if_splits)
      with p axis_line_cols [OF p] show ?thesis
        by (auto simp: cols_ok_def)
    next
      case na: False
      with a have c: "curve_stage pf l ?p = Inr st'"
        by (simp add: axes_stage_def)
      show ?thesis
      proof (rule curve_stage_cols [OF p c])
        show "\<not> startswith l ''#START Curve description'' \<and> \<not> startswith l ''#START Date:''
         \<and> \<not> startswith l ''#START Time:'' \<and> \<not> startswith l ''#START Curve Legend ''
         \<and> \<not> is_points_tag l ?p
         \<and> \<not> startswith l ''#START Curve Data'' \<and> reading_data ?p \<and> is_row_line l ?p
           \<longrightarrow> length (split_ws l) = n"
          using assms(3) nc na rr by (simp add: reads_row_def)
      qed
    qed
  qed
qed

lemma run_cols:
  assumes "cols_ok n (gdata st)" and "run pf ls st = Inr st'"
    and "\<forall>l \<in> set (data_rows pf ls st). length (split_ws l) = n"
  shows "cols_ok n (gdata st')"
  using assms
proof (induction ls arbitrary: st)
  case Nil
  then show ?case by simp
next
  case (Cons l ls)
  from Cons.prems(2) obtain st1 where s: "step pf l st = Inr st1" and r: "run pf ls st1 = Inr st'"
    by (auto split: sum.splits)
  have "reads_row l st \<longrightarrow> length (split_ws l) = n"
    using Cons.prems(3) by simp
  from step_cols [OF Cons.prems(1) s this] have c: "cols_ok n (gdata st1)" .
  have "\<forall>l \<in> set (data_rows pf ls st1). length (split_ws l) = n"
    using Cons.prems(3) s by simp
  from Cons.IH [OF c r this] show ?case .
qed

lemma data_line_aligned: "aligned st \<Longrightarrow> data_line pf l st = Inr st' \<Longrightarrow> aligned st'"
  by (auto simp: data_line_def curve_eq set_curve_eq aligned_def split: sum.splits if_splits)

lemma curve_description_aligned:
  "aligned st \<Longrightarrow> curve_description l st = Inr st' \<Longrightarrow> aligned st'"
  by (auto simp: curve_description_def aligned_def split: sum.splits)

lemma curve_date_aligned: "aligned st \<Longrightarrow> curve_date l st = Inr st' \<Longrightarrow> aligned st'"
  by (auto simp: curve_date_def set_curve_eq aligned_def split: sum.splits if_splits)

lemma curve_legend_aligned: "aligned st \<Longrightarrow> curve_legend l st = Inr st' \<Longrightarrow> aligned st'"
  by (auto simp: curve_legend_def set_curve_eq aligned_def split: sum.splits if_splits)

lemma curve_time_aligned: "aligned st \<Longrightarrow> curve_time pf l st = Inr st' \<Longrightarrow> aligned st'"
  by (auto simp: curve_time_def set_curve_eq aligned_def split: sum.splits if_splits)

lemma curve_points_aligned: "aligned st \<Longrightarrow> curve_points l st = Inr st' \<Longrightarrow> aligned st'"
  by (auto simp: curve_points_def set_curve_eq aligned_def split: sum.splits if_splits)

lemma axis_line_aligned: "aligned st \<Longrightarrow> axis_line l st = Inr st' \<Longrightarrow> aligned st'"
  by (auto simp: axis_line_def aligned_def split: sum.splits if_splits)

lemma aligned_flags:
  "aligned (st\<lparr>reading_data := b\<rparr>) = aligned st"
  "aligned (st\<lparr>reading_axes_description := i\<rparr>) = aligned st"
  "aligned (st\<lparr>reading_comment := c\<rparr>) = aligned st"
  "aligned (comment_line l st) = aligned st"
  "aligned (preamble l st) = aligned st"
  by (simp_all add: aligned_def comment_line_def preamble_frame)

lemma data_stage_aligned: "aligned st \<Longrightarrow> data_stage pf l st = Inr st' \<Longrightarrow> aligned st'"
  unfolding data_stage_def
  by (auto dest: data_line_aligned split: if_splits simp: aligned_flags)

lemma curve_stage_aligned: "aligned st \<Longrightarrow> curve_stage pf l st = Inr st' \<Longrightarrow> aligned st'"
  unfolding curve_stage_def
  by (auto dest: curve_description_aligned curve_date_aligned curve_time_aligned
      curve_legend_aligned curve_points_aligned data_stage_aligned split: if_splits)

lemma axes_stage_aligned: "aligned st \<Longrightarrow> axes_stage pf l st = Inr st' \<Longrightarrow> aligned st'"
  unfolding axes_stage_def
  by (auto dest: axis_line_aligned curve_stage_aligned split: if_splits simp: aligned_flags)

lemma step_aligned: "aligned st \<Longrightarrow> step pf l st = Inr st' \<Longrightarrow> aligned st'"
proof -
  assume a: "aligned st" and s: "step pf l st = Inr st'"
  have p: "aligned (preamble l st)"
    using a by (simp add: aligned_flags)
  from s have "body pf l (preamble l st) = Inr st'"
    by (simp add: step_def)
  then show ?thesis
    unfolding body_def
    using a by (auto dest: axes_stage_aligned [OF p] split: if_splits simp: aligned_flags)
qed

lemma run_aligned: "aligned st \<Longrightarrow> run pf ls st = Inr st' \<Longrightarrow> aligned st'"
proof (induction ls arbitrary: st)
  case Nil
  then show ?case by simp
next
  case (Cons l ls)
  from Cons.prems(2) obtain st1 where s: "step pf l st = Inr st1" and r: "run pf ls st1 = Inr st'"
    by (auto split: sum.splits)
  from Cons.IH [OF step_aligned [OF Cons.prems(1) s] r] show ?case .
qed

text \<open>
  C3. For every file on which the parse succeeds, the result has as many \<open>units\<close> as
  \<open>names\<close>; and when every line that the parser has read as a row of data holds
  \<open>len(names)\<close> fields, every curve whose data is not empty has \<open>len(names)\<close>
  columns. The rows are the lines collected by \<open>data_rows\<close>; the number of columns of an
  array is the length of its last axis, also for the one-dimensional array of a curve with a
  single row.
\<close>

theorem columns_match_names:
  assumes "read_grd pf lines = Inr g"
  shows "length (names g) = length (units g)
     \<and> ((\<forall>l \<in> set (data_rows pf lines reader_init). length (split_ws l) = length (names g))
          \<longrightarrow> (\<forall>c \<in> set (curves g). shape0 (data c) \<noteq> 0
                 \<longrightarrow> ncols (data c) = length (names g)))"
proof -
  from assms obtain st where r: "run pf lines reader_init = Inr st" and g: "g = gdata st"
    by (auto simp: read_grd_def split: sum.splits)
  have "aligned (reader_init :: 'a reader)"
    by (simp add: aligned_def reader_init_def GraphData_init_def)
  from run_aligned [OF this r] have a: "length (names g) = length (units g)"
    by (simp add: aligned_def g)
  have c0: "cols_ok n (gdata (reader_init :: 'a reader))" for n
    by (simp add: cols_ok_def reader_init_def GraphData_init_def)
  have "cols_ok (length (names g)) g"
    if "\<forall>l \<in> set (data_rows pf lines reader_init). length (split_ws l) = length (names g)"
    using run_cols [OF c0 r that] by (simp add: g)
  with a show ?thesis
    by (simp add: cols_ok_def)
qed

lemma scenario_result: "read_grd dec_float scenario = Inr scenario_graph"
  by code_simp

lemma scenario_data_rows: "data_rows dec_float scenario reader_init = [''0.0 1,5'', ''1.0 2,5'']"
  by code_simp

theorem columns_match_names_witness:
  "length (names scenario_graph) = length (units scenario_graph)
   \<and> shape0 (data (hd (curves scenario_graph))) = 2
   \<and> ncols (data (hd (curves scenario_graph))) = length (names scenario_graph)"
proof -
  have t: "length (split_ws ''0.0 1,5'') = 2" "length (split_ws ''1.0 2,5'') = 2"
    by (simp_all add: scenario_tokens)
  have n: "length (names scenario_graph) = 2"
    by (simp add: scenario_graph_def GraphData_init_def)
  have "\<forall>l \<in> set (data_rows dec_float scenario reader_init).
      length (split_ws l) = length (names scenario_graph)"
    by (simp add: scenario_data_rows t n)
  with columns_match_names [OF scenario_result]
  have "length (names scenario_graph) = length (units scenario_graph)"
    and "\<forall>c \<in> set (curves scenario_graph). shape0 (data c) \<noteq> 0
           \<longrightarrow> ncols (data c) = length (names scenario_graph)"
    by blast+
  then show ?thesis
    by (simp add: scenario_graph_def GraphData_init_def CurveData_init_def shape0_def)
qed

end
